theory Spec2Isabelle
  imports Main
begin

section \<open>The caching namespace manager of internal/namespace/caching.go\<close>

text \<open>
  The manager answers reads of namespace definitions at a revision from a cache, and on
  a miss from the datastore found in the caller's context. Everything it calls that is
  not written in caching.go (the datastore, the cache library, the metadata filter, the
  size function, the type system builder) is a collaborator: a field of the record
  \<open>collaborators\<close>, so that every theorem holds for whatever those do.
  The hidden state of the collaborators (the datastore's contents, the cache policy's
  counters) is the component \<open>ext\<close> of the \<open>world\<close>; each call of a collaborator is
  also written to the list \<open>calls\<close>, the way a fake collaborator of a test counts its
  calls. The tracing span of ReadNamespace carries no data and is left out.

  \<open>datastoremw.MustFromContext\<close> panics on a context without a datastore; the model
  starts where the context carries one, the \<open>ds_\<close> fields of the collaborators. The
  datastore answers a read with an error or with a definition. The builder of the type
  system is handed the definition, the manager and the revision, but no context, and
  ReadNamespace takes its datastore from the context: the builder cannot read through
  the manager while it builds, and is a function of the definition and the revision.
\<close>

subsection \<open>Data\<close>

text \<open>
  A revision is a decimal.Decimal (coefficient and exponent); the manager only passes it
  on. A cache key is the string that NamespaceCacheKey returns.
\<close>

type_synonym revision = "int \<times> int"

type_synonym key = string

text \<open>
  Modelled from the spec: the protobuf messages of v0.NamespaceDefinition are declared
  outside caching.go. A definition has a name, its relations and a metadata block; a
  relation has a name and a metadata block; a metadata block is a list of messages,
  each a type URL and a payload. The rewrite and the type information of a relation,
  which the manager never reads, are left out.
\<close>

record Any =
  type_url :: string
  payload :: string

record Relation =
  rel_Name :: string
  rel_Metadata :: "Any list option"

record NamespaceDefinition =
  ns_Name :: string
  ns_Relation :: "Relation list"
  ns_Metadata :: "Any list option"

text \<open>
  Modelled from the spec: the error types are declared outside caching.go.
  \<open>ErrorsNew\<close> is an error with a message and nothing inside; \<open>Errorf m e\<close> is
  fmt.Errorf with format \<open>m\<close> and the verb \<open>%w\<close> around \<open>e\<close>;
  \<open>DatastoreErrNamespaceNotFound\<close> is datastore.ErrNamespaceNotFound, the not-found
  condition of the datastore; \<open>ErrNamespaceNotFound\<close> and \<open>ErrRelationNotFound\<close> are
  what NewNamespaceNotFoundErr and NewRelationNotFoundErr of this package build.
\<close>

datatype error =
    ErrorsNew string
  | Errorf string error
  | DatastoreErrNamespaceNotFound string
  | ErrNamespaceNotFound string
  | ErrRelationNotFound string string

text \<open>
  \<open>errors.As(err, &datastore.ErrNamespaceNotFound{})\<close>: true when the error, or an
  error it wraps, is the datastore's not-found error.
\<close>

fun errors_As_DatastoreErrNamespaceNotFound :: "error \<Rightarrow> bool" where
  "errors_As_DatastoreErrNamespaceNotFound (DatastoreErrNamespaceNotFound n) = True"
| "errors_As_DatastoreErrNamespaceNotFound (Errorf m e) = errors_As_DatastoreErrNamespaceNotFound e"
| "errors_As_DatastoreErrNamespaceNotFound (ErrorsNew m) = False"
| "errors_As_DatastoreErrNamespaceNotFound (ErrNamespaceNotFound n) = False"
| "errors_As_DatastoreErrNamespaceNotFound (ErrRelationNotFound n r) = False"

definition NewNamespaceNotFoundErr :: "string \<Rightarrow> error" where
  "NewNamespaceNotFoundErr nsName = ErrNamespaceNotFound nsName"

definition NewRelationNotFoundErr :: "string \<Rightarrow> string \<Rightarrow> error" where
  "NewRelationNotFoundErr nsName relationName = ErrRelationNotFound nsName relationName"

definition errInitialization :: string where
  "errInitialization = ''unable to initialize namespace manager: %w''"

text \<open>Modelled from the spec: datastore.Ellipsis, the reserved wildcard relation name.\<close>

definition Ellipsis :: string where
  "Ellipsis = ''...''"

subsection \<open>The cache\<close>

text \<open>
  The ristretto cache, as far as the manager uses it: a table from keys to definitions.
  \<open>Set\<close> hands the entry to the cache's policy, which answers whether the entry is
  admitted and which keys it evicts (an entry can be refused after victims were
  evicted). A closed cache finds nothing and stores nothing.
\<close>

record Config =
  NumCounters :: int
  MaxCost :: int
  BufferItems :: int

record cache =
  entries :: "key \<rightharpoonup> NamespaceDefinition"
  isClosed :: bool

definition cache_Get :: "key \<Rightarrow> cache \<Rightarrow> NamespaceDefinition option" where
  "cache_Get k ch = (if isClosed ch then None else entries ch k)"

definition cache_Set :: "bool \<times> key list \<Rightarrow> key \<Rightarrow> NamespaceDefinition \<Rightarrow> cache \<Rightarrow> cache" where
  "cache_Set outcome k v ch =
     (if isClosed ch then ch
      else (case outcome of (admitted, victims) \<Rightarrow>
        (let kept = (\<lambda>k'. if k' \<in> set victims then None else entries ch k')
         in ch\<lparr>entries := (if admitted then kept(k \<mapsto> v) else kept)\<rparr>)))"

definition cache_Close :: "cache \<Rightarrow> cache" where
  "cache_Close ch = ch\<lparr>entries := Map.empty, isClosed := True\<rparr>"

subsection \<open>Collaborators and the world\<close>

datatype call =
    CallNamespaceCacheKey string revision
  | CallDatastoreReadNamespace string revision
  | CallCacheGet key
  | CallCacheSet key NamespaceDefinition int
  | CallBuildNamespaceTypeSystem NamespaceDefinition revision
  | CallCacheClose

record 'w world =
  ext :: 'w
  calls :: "call list"

record ('w, 'ts) collaborators =
  ds_NamespaceCacheKey :: "string \<Rightarrow> revision \<Rightarrow> 'w \<Rightarrow> (error + key) \<times> 'w"
  ds_ReadNamespace :: "string \<Rightarrow> revision \<Rightarrow> 'w \<Rightarrow> (error + NamespaceDefinition) \<times> 'w"
  FilterUserDefinedMetadata :: "NamespaceDefinition \<Rightarrow> NamespaceDefinition"
  proto_Size :: "NamespaceDefinition \<Rightarrow> int"
  cache_policy :: "key \<Rightarrow> int \<Rightarrow> 'w \<Rightarrow> (bool \<times> key list) \<times> 'w"
  BuildNamespaceTypeSystemForManager :: "NamespaceDefinition \<Rightarrow> revision \<Rightarrow> 'ts option \<times> error option"

record cachingManager =
  expiration :: int
  c :: cache

text \<open>The calls of the collaborators, each written to the list of calls.\<close>

definition NamespaceCacheKey ::
  "('w, 'ts) collaborators \<Rightarrow> string \<Rightarrow> revision \<Rightarrow> 'w world \<Rightarrow> (error + key) \<times> 'w world" where
  "NamespaceCacheKey env nsName revision w =
     (case ds_NamespaceCacheKey env nsName revision (ext w) of
        (res, x) \<Rightarrow> (res, w\<lparr>ext := x, calls := calls w @ [CallNamespaceCacheKey nsName revision]\<rparr>))"

definition DatastoreReadNamespace ::
  "('w, 'ts) collaborators \<Rightarrow> string \<Rightarrow> revision \<Rightarrow> 'w world
     \<Rightarrow> (error + NamespaceDefinition) \<times> 'w world" where
  "DatastoreReadNamespace env nsName revision w =
     (case ds_ReadNamespace env nsName revision (ext w) of
        (res, x) \<Rightarrow> (res, w\<lparr>ext := x, calls := calls w @ [CallDatastoreReadNamespace nsName revision]\<rparr>))"

definition Get ::
  "key \<Rightarrow> cachingManager \<Rightarrow> 'w world \<Rightarrow> NamespaceDefinition option \<times> 'w world" where
  "Get k nsc w = (cache_Get k (c nsc), w\<lparr>calls := calls w @ [CallCacheGet k]\<rparr>)"

definition Set_cache ::
  "('w, 'ts) collaborators \<Rightarrow> key \<Rightarrow> NamespaceDefinition \<Rightarrow> int \<Rightarrow> cachingManager \<Rightarrow> 'w world
     \<Rightarrow> cachingManager \<times> 'w world" where
  "Set_cache env k v cost nsc w =
     (case cache_policy env k cost (ext w) of
        (outcome, x) \<Rightarrow>
          (nsc\<lparr>c := cache_Set outcome k v (c nsc)\<rparr>,
           w\<lparr>ext := x, calls := calls w @ [CallCacheSet k v cost]\<rparr>))"

definition Build ::
  "('w, 'ts) collaborators \<Rightarrow> NamespaceDefinition \<Rightarrow> revision \<Rightarrow> 'w world
     \<Rightarrow> ('ts option \<times> error option) \<times> 'w world" where
  "Build env nsDef revision w =
     (BuildNamespaceTypeSystemForManager env nsDef revision,
      w\<lparr>calls := calls w @ [CallBuildNamespaceTypeSystem nsDef revision]\<rparr>)"

text \<open>
  \<open>singleflight.Group.Do\<close> with one caller at a time: no call for the key is in flight,
  so the caller runs the function itself and gets its results.
\<close>

definition Do :: "key \<Rightarrow> ('s \<Rightarrow> 'r \<times> 's) \<Rightarrow> 's \<Rightarrow> 'r \<times> 's" where
  "Do k fn s = fn s"

subsection \<open>The manager\<close>

definition NewCachingNamespaceManager ::
  "(Config \<Rightarrow> error + cache) \<Rightarrow> int \<Rightarrow> Config option \<Rightarrow> error + cachingManager" where
  "NewCachingNamespaceManager ristretto_NewCache expiration' cacheConfig =
     (let cacheConfig' =
        (case cacheConfig of
           None \<Rightarrow> \<lparr>NumCounters = 10000, MaxCost = push_bit 24 1, BufferItems = 64\<rparr>
         | Some cfg \<Rightarrow> cfg)
      in case ristretto_NewCache cacheConfig' of
           Inl err \<Rightarrow> Inl (Errorf errInitialization err)
         | Inr cache' \<Rightarrow> Inr \<lparr>expiration = expiration', c = cache'\<rparr>)"

text \<open>The function that ReadNamespace hands to the single-flight group (lines 81 to 101).\<close>

definition loadNamespace ::
  "('w, 'ts) collaborators \<Rightarrow> string \<Rightarrow> revision \<Rightarrow> cachingManager \<times> 'w world
     \<Rightarrow> (error + NamespaceDefinition) \<times> cachingManager \<times> 'w world" where
  "loadNamespace env nsName revision s =
     (case s of (nsc, w) \<Rightarrow>
       (case DatastoreReadNamespace env nsName revision w of
          (Inl err, w1) \<Rightarrow> (Inl err, nsc, w1)
        | (Inr loaded0, w1) \<Rightarrow>
            (let loaded = FilterUserDefinedMetadata env loaded0
             in case NamespaceCacheKey env nsName revision w1 of
                  (Inl err, w2) \<Rightarrow> (Inl err, nsc, w2)
                | (Inr cacheKey, w2) \<Rightarrow>
                    (case Set_cache env cacheKey loaded (proto_Size env loaded) nsc w2 of
                       (nsc', w3) \<Rightarrow> (Inr loaded, nsc', w3)))))"

definition ReadNamespace ::
  "('w, 'ts) collaborators \<Rightarrow> string \<Rightarrow> revision \<Rightarrow> cachingManager \<Rightarrow> 'w world
     \<Rightarrow> (error + NamespaceDefinition) \<times> cachingManager \<times> 'w world" where
  "ReadNamespace env nsName revision nsc w =
     (case NamespaceCacheKey env nsName revision w of
        (Inl err, w1) \<Rightarrow> (Inl err, nsc, w1)
      | (Inr nsRevisionKey, w1) \<Rightarrow>
          (case Get nsRevisionKey nsc w1 of
             (Some value, w2) \<Rightarrow> (Inr value, nsc, w2)
           | (None, w2) \<Rightarrow>
               (case Do nsRevisionKey (loadNamespace env nsName revision) (nsc, w2) of
                  (Inl err, s') \<Rightarrow>
                    (if errors_As_DatastoreErrNamespaceNotFound err
                     then (Inl (NewNamespaceNotFoundErr nsName), s')
                     else (Inl err, s'))
                | (Inr loadedRaw, s') \<Rightarrow> (Inr loadedRaw, s'))))"

definition ReadNamespaceAndTypes ::
  "('w, 'ts) collaborators \<Rightarrow> string \<Rightarrow> revision \<Rightarrow> cachingManager \<Rightarrow> 'w world
     \<Rightarrow> (NamespaceDefinition option \<times> 'ts option \<times> error option) \<times> cachingManager \<times> 'w world" where
  "ReadNamespaceAndTypes env nsName revision nsc w =
     (case ReadNamespace env nsName revision nsc w of
        (Inl err, nsc', w') \<Rightarrow> ((None, None, Some err), nsc', w')
      | (Inr nsDef, nsc', w') \<Rightarrow>
          (case Build env nsDef revision w' of
             ((ts, terr), w'') \<Rightarrow> ((Some nsDef, ts, terr), nsc', w'')))"

text \<open>The loop of CheckNamespaceAndRelation over the relations of the definition.\<close>

fun hasRelationNamed :: "Relation list \<Rightarrow> string \<Rightarrow> bool" where
  "hasRelationNamed [] relation = False"
| "hasRelationNamed (rel # rels) relation =
     (if rel_Name rel = relation then True else hasRelationNamed rels relation)"

definition CheckNamespaceAndRelation ::
  "('w, 'ts) collaborators \<Rightarrow> string \<Rightarrow> string \<Rightarrow> bool \<Rightarrow> revision \<Rightarrow> cachingManager \<Rightarrow> 'w world
     \<Rightarrow> error option \<times> cachingManager \<times> 'w world" where
  "CheckNamespaceAndRelation env namespace relation allowEllipsis revision nsc w =
     (case ReadNamespace env namespace revision nsc w of
        (Inl err, s') \<Rightarrow> (Some err, s')
      | (Inr config, s') \<Rightarrow>
          (if allowEllipsis \<and> relation = Ellipsis then (None, s')
           else if hasRelationNamed (ns_Relation config) relation then (None, s')
           else (Some (NewRelationNotFoundErr namespace relation), s')))"

definition Close :: "cachingManager \<Rightarrow> 'w world \<Rightarrow> error option \<times> cachingManager \<times> 'w world" where
  "Close nsc w =
     (None, nsc\<lparr>c := cache_Close (c nsc)\<rparr>, w\<lparr>calls := calls w @ [CallCacheClose]\<rparr>)"

subsection \<open>Callers\<close>

text \<open>
  A caller issues the four operations of the manager one after the other; each runs on
  the manager and the world that the one before left.
\<close>

datatype request =
    ReqReadNamespace string revision
  | ReqReadNamespaceAndTypes string revision
  | ReqCheckNamespaceAndRelation string string bool revision
  | ReqClose

datatype 'ts response =
    RespReadNamespace "error + NamespaceDefinition"
  | RespReadNamespaceAndTypes "NamespaceDefinition option" "'ts option" "error option"
  | RespCheckNamespaceAndRelation "error option"
  | RespClose "error option"

fun serve ::
  "('w, 'ts) collaborators \<Rightarrow> request \<Rightarrow> cachingManager \<Rightarrow> 'w world
     \<Rightarrow> 'ts response \<times> cachingManager \<times> 'w world" where
  "serve env (ReqReadNamespace nsName revision) nsc w =
     (case ReadNamespace env nsName revision nsc w of
        (res, s') \<Rightarrow> (RespReadNamespace res, s'))"
| "serve env (ReqReadNamespaceAndTypes nsName revision) nsc w =
     (case ReadNamespaceAndTypes env nsName revision nsc w of
        ((nsDef, ts, err), s') \<Rightarrow> (RespReadNamespaceAndTypes nsDef ts err, s'))"
| "serve env (ReqCheckNamespaceAndRelation namespace relation allowEllipsis revision) nsc w =
     (case CheckNamespaceAndRelation env namespace relation allowEllipsis revision nsc w of
        (err, s') \<Rightarrow> (RespCheckNamespaceAndRelation err, s'))"
| "serve env ReqClose nsc w =
     (case Close nsc w of (err, s') \<Rightarrow> (RespClose err, s'))"

fun serveAll ::
  "('w, 'ts) collaborators \<Rightarrow> request list \<Rightarrow> cachingManager \<Rightarrow> 'w world
     \<Rightarrow> 'ts response list \<times> cachingManager \<times> 'w world" where
  "serveAll env [] nsc w = ([], nsc, w)"
| "serveAll env (req # reqs) nsc w =
     (case serve env req nsc w of
        (resp, nsc', w') \<Rightarrow>
          (case serveAll env reqs nsc' w' of
             (resps, s'') \<Rightarrow> (resp # resps, s'')))"

text \<open>The definitions that a response shows to the caller.\<close>

fun definitionsOf :: "'ts response \<Rightarrow> NamespaceDefinition list" where
  "definitionsOf (RespReadNamespace (Inr d)) = [d]"
| "definitionsOf (RespReadNamespace (Inl err)) = []"
| "definitionsOf (RespReadNamespaceAndTypes (Some d) ts err) = [d]"
| "definitionsOf (RespReadNamespaceAndTypes None ts err) = []"
| "definitionsOf (RespCheckNamespaceAndRelation err) = []"
| "definitionsOf (RespClose err) = []"

fun isCacheSet :: "call \<Rightarrow> bool" where
  "isCacheSet (CallCacheSet k v cost) = True"
| "isCacheSet (CallNamespaceCacheKey n r) = False"
| "isCacheSet (CallDatastoreReadNamespace n r) = False"
| "isCacheSet (CallCacheGet k) = False"
| "isCacheSet (CallBuildNamespaceTypeSystem d r) = False"
| "isCacheSet CallCacheClose = False"

text \<open>Every entry of the manager's cache satisfies \<open>ok\<close>.\<close>

definition cacheHoldsOnly :: "(NamespaceDefinition \<Rightarrow> bool) \<Rightarrow> cachingManager \<Rightarrow> bool" where
  "cacheHoldsOnly ok nsc = (\<forall>k d. entries (c nsc) k = Some d \<longrightarrow> ok d)"

subsection \<open>Collaborators to run the manager on\<close>

text \<open>
  A datastore with one namespace, \<open>document\<close>, that counts its calls in the world; a
  cache that admits every entry and evicts nothing; a filter that removes every
  metadata block; a builder that fails on a definition which declares a relation twice.
\<close>

definition documentDef :: NamespaceDefinition where
  "documentDef =
     \<lparr>ns_Name = ''document'',
      ns_Relation =
        [\<lparr>rel_Name = ''viewer'',
          rel_Metadata = Some [\<lparr>type_url = ''DocComment'', payload = ''who may view''\<rparr>]\<rparr>,
         \<lparr>rel_Name = ''editor'', rel_Metadata = None\<rparr>],
      ns_Metadata = Some [\<lparr>type_url = ''DocComment'', payload = ''a document''\<rparr>]\<rparr>"

definition removeAllMetadata :: "NamespaceDefinition \<Rightarrow> NamespaceDefinition" where
  "removeAllMetadata d =
     d\<lparr>ns_Relation := map (\<lambda>rel. rel\<lparr>rel_Metadata := None\<rparr>) (ns_Relation d),
       ns_Metadata := None\<rparr>"

definition carriesMetadata :: "NamespaceDefinition \<Rightarrow> bool" where
  "carriesMetadata d =
     (case ns_Metadata d of
        Some ms \<Rightarrow> True
      | None \<Rightarrow> list_ex (\<lambda>rel. case rel_Metadata rel of Some ms \<Rightarrow> True | None \<Rightarrow> False)
                  (ns_Relation d))"

definition keyOf :: "string \<Rightarrow> revision \<Rightarrow> key" where
  "keyOf nsName revision = nsName @ ''@'' @ replicate (nat (fst revision)) (CHR ''I'')"

definition relationNames ::
  "NamespaceDefinition \<Rightarrow> revision \<Rightarrow> string list option \<times> error option" where
  "relationNames nsDef revision =
     (if distinct (map rel_Name (ns_Relation nsDef))
      then (Some (map rel_Name (ns_Relation nsDef)), None)
      else (None, Some (ErrorsNew ''duplicate relation'')))"

definition oneNamespace :: "(nat, string list) collaborators" where
  "oneNamespace =
     \<lparr>ds_NamespaceCacheKey = (\<lambda>nsName revision n. (Inr (keyOf nsName revision), n)),
      ds_ReadNamespace = (\<lambda>nsName revision n.
        (if nsName = ''document'' then Inr documentDef
         else Inl (DatastoreErrNamespaceNotFound nsName), Suc n)),
      FilterUserDefinedMetadata = removeAllMetadata,
      proto_Size = (\<lambda>d. int (length (ns_Name d)) + int (length (ns_Relation d))),
      cache_policy = (\<lambda>k cost n. ((True, []), n)),
      BuildNamespaceTypeSystemForManager = relationNames\<rparr>"

text \<open>
  The same, with a key derivation that works before the first fetch and reports the
  datastore's not-found error after it.
\<close>

definition keyLostAfterFetch :: "(nat, string list) collaborators" where
  "keyLostAfterFetch =
     oneNamespace\<lparr>ds_NamespaceCacheKey := (\<lambda>nsName revision n.
        (if n = 0 then Inr (keyOf nsName revision)
         else Inl (DatastoreErrNamespaceNotFound nsName), n))\<rparr>"

text \<open>The same, with a builder that always fails.\<close>

definition brokenBuilder :: "(nat, string list) collaborators" where
  "brokenBuilder =
     oneNamespace\<lparr>BuildNamespaceTypeSystemForManager :=
        (\<lambda>nsDef revision. (None, Some (ErrorsNew ''no type system'')))\<rparr>"

text \<open>\<open>ristretto.NewCache\<close>: it refuses a configuration with a field that is zero.\<close>

definition ristretto_NewCache :: "Config \<Rightarrow> error + cache" where
  "ristretto_NewCache config =
     (if NumCounters config = 0 then Inl (ErrorsNew ''NumCounters can't be zero'')
      else if MaxCost config = 0 then Inl (ErrorsNew ''MaxCost can't be zero'')
      else if BufferItems config = 0 then Inl (ErrorsNew ''BufferItems can't be zero'')
      else Inr \<lparr>entries = Map.empty, isClosed = False\<rparr>)"

definition freshManager :: cachingManager where
  "freshManager = \<lparr>expiration = 0, c = \<lparr>entries = Map.empty, isClosed = False\<rparr>\<rparr>"

definition freshWorld :: "nat world" where
  "freshWorld = \<lparr>ext = 0, calls = []\<rparr>"

text \<open>
  The same, with a key derivation that is a function of the name and the revision and
  refuses a revision below zero.
\<close>

definition strictKeys :: "(nat, string list) collaborators" where
  "strictKeys =
     oneNamespace\<lparr>ds_NamespaceCacheKey := (\<lambda>nsName revision n.
        (if fst revision < 0 then Inl (ErrorsNew ''invalid revision'')
         else Inr (keyOf nsName revision), n))\<rparr>"

text \<open>The same, with a datastore that cannot be reached.\<close>

definition unreachableDatastore :: "(nat, string list) collaborators" where
  "unreachableDatastore =
     oneNamespace\<lparr>ds_ReadNamespace := (\<lambda>nsName revision n.
        (Inl (ErrorsNew ''connection refused''), Suc n))\<rparr>"

text \<open>
  The same, with a key derivation that works before the first fetch and fails after it
  with an error that is not the datastore's not-found error.
\<close>

definition keyExpiresAfterFetch :: "(nat, string list) collaborators" where
  "keyExpiresAfterFetch =
     oneNamespace\<lparr>ds_NamespaceCacheKey := (\<lambda>nsName revision n.
        (if n = 0 then Inr (keyOf nsName revision)
         else Inl (ErrorsNew ''revision expired''), n))\<rparr>"

subsection \<open>Overlapping calls\<close>

text \<open>
  Several calls of ReadNamespace run at once on one manager. A call is a thread that
  stands before its next call of a collaborator or of the single-flight group; a step
  runs one thread over that call, and a schedule is the list of the threads that step,
  in order. \<open>Called\<close> stands before the key derivation of line 71, \<open>Probing\<close> before the
  probe of line 75, \<open>AtDo\<close> before Do at line 81; \<open>Leading\<close>, \<open>Loaded\<close> and \<open>Keyed\<close> are
  inside the function handed to Do, before the fetch of line 83, the key derivation of
  line 91 and the Set of line 97; \<open>Waiting\<close> is inside Do, waiting for the results of
  another caller; \<open>Returned\<close> has returned.

  \<open>singleflight.Group.Do\<close> decides under the group's lock: the caller that finds no call
  in flight for its key enters one and runs the function; a caller that finds one waits
  and gets the results of that call; the entry is removed when the function returns.
  So a key is in flight exactly while a thread is inside the function for it.
\<close>

datatype thread =
    Called string revision
  | Probing string revision key
  | AtDo string revision key
  | Leading string revision key
  | Loaded string revision key NamespaceDefinition
  | Keyed string revision key key NamespaceDefinition
  | Waiting string revision key
  | Returned "error + NamespaceDefinition"

record 'w system =
  manager :: cachingManager
  outside :: "'w world"
  threads :: "thread list"

text \<open>Lines 102 to 109: what a caller makes of the results of Do.\<close>

definition finish :: "string \<Rightarrow> error + NamespaceDefinition \<Rightarrow> error + NamespaceDefinition" where
  "finish nsName res =
     (case res of
        Inl err \<Rightarrow>
          (if errors_As_DatastoreErrNamespaceNotFound err
           then Inl (NewNamespaceNotFoundErr nsName) else Inl err)
      | Inr loadedRaw \<Rightarrow> Inr loadedRaw)"

fun leads :: "key \<Rightarrow> thread \<Rightarrow> bool" where
  "leads k (Leading n r k') = (k' = k)"
| "leads k (Loaded n r k' loaded) = (k' = k)"
| "leads k (Keyed n r k' cacheKey loaded) = (k' = k)"
| "leads k (Called n r) = False"
| "leads k (Probing n r k') = False"
| "leads k (AtDo n r k') = False"
| "leads k (Waiting n r k') = False"
| "leads k (Returned res) = False"

fun waitsOn :: "key \<Rightarrow> thread \<Rightarrow> bool" where
  "waitsOn k (Waiting n r k') = (k' = k)"
| "waitsOn k (Called n r) = False"
| "waitsOn k (Probing n r k') = False"
| "waitsOn k (AtDo n r k') = False"
| "waitsOn k (Leading n r k') = False"
| "waitsOn k (Loaded n r k' loaded) = False"
| "waitsOn k (Keyed n r k' cacheKey loaded) = False"
| "waitsOn k (Returned res) = False"

definition inFlight :: "key \<Rightarrow> thread list \<Rightarrow> bool" where
  "inFlight k ths = list_ex (leads k) ths"

text \<open>The function of the call in flight for \<open>k\<close> has returned \<open>res\<close>: its waiters get it.\<close>

fun deliver :: "key \<Rightarrow> error + NamespaceDefinition \<Rightarrow> thread \<Rightarrow> thread" where
  "deliver k res (Waiting n r k') =
     (if k' = k then Returned (finish n res) else Waiting n r k')"
| "deliver k res (Called n r) = Called n r"
| "deliver k res (Probing n r k') = Probing n r k'"
| "deliver k res (AtDo n r k') = AtDo n r k'"
| "deliver k res (Leading n r k') = Leading n r k'"
| "deliver k res (Loaded n r k' loaded) = Loaded n r k' loaded"
| "deliver k res (Keyed n r k' cacheKey loaded) = Keyed n r k' cacheKey loaded"
| "deliver k res (Returned res') = Returned res'"

definition complete ::
  "nat \<Rightarrow> string \<Rightarrow> key \<Rightarrow> error + NamespaceDefinition \<Rightarrow> 'w system \<Rightarrow> 'w system" where
  "complete i nsName k res s =
     s\<lparr>threads := (map (deliver k res) (threads s))[i := Returned (finish nsName res)]\<rparr>"

definition step :: "('w, 'ts) collaborators \<Rightarrow> nat \<Rightarrow> 'w system \<Rightarrow> 'w system" where
  "step env i s =
     (if length (threads s) \<le> i then s
      else (case threads s ! i of
        Called n r \<Rightarrow>
          (case NamespaceCacheKey env n r (outside s) of
             (Inl err, w1) \<Rightarrow>
               s\<lparr>outside := w1, threads := (threads s)[i := Returned (Inl err)]\<rparr>
           | (Inr nsRevisionKey, w1) \<Rightarrow>
               s\<lparr>outside := w1, threads := (threads s)[i := Probing n r nsRevisionKey]\<rparr>)
      | Probing n r k \<Rightarrow>
          (case Get k (manager s) (outside s) of
             (Some value, w2) \<Rightarrow>
               s\<lparr>outside := w2, threads := (threads s)[i := Returned (Inr value)]\<rparr>
           | (None, w2) \<Rightarrow>
               s\<lparr>outside := w2, threads := (threads s)[i := AtDo n r k]\<rparr>)
      | AtDo n r k \<Rightarrow>
          s\<lparr>threads := (threads s)
               [i := (if inFlight k (threads s) then Waiting n r k else Leading n r k)]\<rparr>
      | Leading n r k \<Rightarrow>
          (case DatastoreReadNamespace env n r (outside s) of
             (Inl err, w1) \<Rightarrow> complete i n k (Inl err) (s\<lparr>outside := w1\<rparr>)
           | (Inr loaded0, w1) \<Rightarrow>
               s\<lparr>outside := w1,
                 threads := (threads s)
                   [i := Loaded n r k (FilterUserDefinedMetadata env loaded0)]\<rparr>)
      | Loaded n r k loaded \<Rightarrow>
          (case NamespaceCacheKey env n r (outside s) of
             (Inl err, w2) \<Rightarrow> complete i n k (Inl err) (s\<lparr>outside := w2\<rparr>)
           | (Inr cacheKey, w2) \<Rightarrow>
               s\<lparr>outside := w2, threads := (threads s)[i := Keyed n r k cacheKey loaded]\<rparr>)
      | Keyed n r k cacheKey loaded \<Rightarrow>
          (case Set_cache env cacheKey loaded (proto_Size env loaded) (manager s) (outside s) of
             (nsc', w3) \<Rightarrow> complete i n k (Inr loaded) (s\<lparr>manager := nsc', outside := w3\<rparr>))
      | Waiting n r k \<Rightarrow> s
      | Returned res \<Rightarrow> s))"

fun run :: "('w, 'ts) collaborators \<Rightarrow> nat list \<Rightarrow> 'w system \<Rightarrow> 'w system" where
  "run env [] s = s"
| "run env (i # sched) s = run env sched (step env i s)"

text \<open>
  What is left of the function handed to Do for a thread inside it: its results, and the
  manager and the world it leaves.
\<close>

fun remaining ::
  "('w, 'ts) collaborators \<Rightarrow> thread \<Rightarrow> cachingManager \<times> 'w world
     \<Rightarrow> ((error + NamespaceDefinition) \<times> cachingManager \<times> 'w world) option" where
  "remaining env (Leading n r k) s = Some (loadNamespace env n r s)"
| "remaining env (Loaded n r k loaded) s =
     Some (case s of (nsc, w) \<Rightarrow>
       (case NamespaceCacheKey env n r w of
          (Inl err, w2) \<Rightarrow> (Inl err, nsc, w2)
        | (Inr cacheKey, w2) \<Rightarrow>
            (case Set_cache env cacheKey loaded (proto_Size env loaded) nsc w2 of
               (nsc', w3) \<Rightarrow> (Inr loaded, nsc', w3))))"
| "remaining env (Keyed n r k cacheKey loaded) s =
     Some (case s of (nsc, w) \<Rightarrow>
       (case Set_cache env cacheKey loaded (proto_Size env loaded) nsc w of
          (nsc', w3) \<Rightarrow> (Inr loaded, nsc', w3)))"
| "remaining env (Called n r) s = None"
| "remaining env (Probing n r k) s = None"
| "remaining env (AtDo n r k) s = None"
| "remaining env (Waiting n r k) s = None"
| "remaining env (Returned res) s = None"

text \<open>The steps a thread inside the function needs at most to return.\<close>

fun stepsLeft :: "thread \<Rightarrow> nat" where
  "stepsLeft (Leading n r k) = 3"
| "stepsLeft (Loaded n r k loaded) = 2"
| "stepsLeft (Keyed n r k cacheKey loaded) = 1"
| "stepsLeft (Called n r) = 0"
| "stepsLeft (Probing n r k) = 0"
| "stepsLeft (AtDo n r k) = 0"
| "stepsLeft (Waiting n r k) = 0"
| "stepsLeft (Returned res) = 0"

text \<open>
  What a thread that leads or waits becomes when the function returns \<open>res\<close>; the other
  threads stay as they are.
\<close>

fun answered :: "error + NamespaceDefinition \<Rightarrow> thread \<Rightarrow> thread" where
  "answered res (Waiting n r k) = Returned (finish n res)"
| "answered res (Leading n r k) = Returned (finish n res)"
| "answered res (Loaded n r k loaded) = Returned (finish n res)"
| "answered res (Keyed n r k cacheKey loaded) = Returned (finish n res)"
| "answered res (Called n r) = Called n r"
| "answered res (Probing n r k) = Probing n r k"
| "answered res (AtDo n r k) = AtDo n r k"
| "answered res (Returned res') = Returned res'"



section \<open>The paths of ReadNamespace\<close>

lemma ReadNamespace_key_error:
  assumes "ds_NamespaceCacheKey env nsName revision (ext w) = (Inl err, x)"
  shows "ReadNamespace env nsName revision nsc w =
    (Inl err, nsc, w\<lparr>ext := x, calls := calls w @ [CallNamespaceCacheKey nsName revision]\<rparr>)"
  using assms by (simp add: ReadNamespace_def NamespaceCacheKey_def)

lemma ReadNamespace_hit:
  assumes "ds_NamespaceCacheKey env nsName revision (ext w) = (Inr k, x)"
    and "cache_Get k (c nsc) = Some d"
  shows "ReadNamespace env nsName revision nsc w =
    (Inr d, nsc,
     w\<lparr>ext := x, calls := calls w @ [CallNamespaceCacheKey nsName revision, CallCacheGet k]\<rparr>)"
  using assms by (simp add: ReadNamespace_def NamespaceCacheKey_def Get_def)

lemma ReadNamespace_miss:
  assumes "ds_NamespaceCacheKey env nsName revision (ext w) = (Inr k, x)"
    and "cache_Get k (c nsc) = None"
  shows "ReadNamespace env nsName revision nsc w =
    (case loadNamespace env nsName revision
            (nsc, w\<lparr>ext := x,
                    calls := calls w @ [CallNamespaceCacheKey nsName revision, CallCacheGet k]\<rparr>) of
       (Inl err, s') \<Rightarrow>
         (if errors_As_DatastoreErrNamespaceNotFound err
          then (Inl (NewNamespaceNotFoundErr nsName), s') else (Inl err, s'))
     | (Inr loadedRaw, s') \<Rightarrow> (Inr loadedRaw, s'))"
  using assms by (simp add: ReadNamespace_def NamespaceCacheKey_def Get_def Do_def)

lemma loadNamespace_fetch_error:
  assumes "ds_ReadNamespace env nsName revision (ext w) = (Inl err, x)"
  shows "loadNamespace env nsName revision (nsc, w) =
    (Inl err, nsc, w\<lparr>ext := x, calls := calls w @ [CallDatastoreReadNamespace nsName revision]\<rparr>)"
  using assms by (simp add: loadNamespace_def DatastoreReadNamespace_def)

lemma loadNamespace_key_error:
  assumes "ds_ReadNamespace env nsName revision (ext w) = (Inr raw, x)"
    and "ds_NamespaceCacheKey env nsName revision x = (Inl err, x')"
  shows "loadNamespace env nsName revision (nsc, w) =
    (Inl err, nsc,
     w\<lparr>ext := x', calls := calls w @ [CallDatastoreReadNamespace nsName revision,
                                       CallNamespaceCacheKey nsName revision]\<rparr>)"
  using assms by (simp add: loadNamespace_def DatastoreReadNamespace_def NamespaceCacheKey_def)

lemma loadNamespace_stored:
  assumes "ds_ReadNamespace env nsName revision (ext w) = (Inr raw, x)"
    and "ds_NamespaceCacheKey env nsName revision x = (Inr k, x')"
    and "cache_policy env k (proto_Size env (FilterUserDefinedMetadata env raw)) x' = (outcome, x'')"
  shows "loadNamespace env nsName revision (nsc, w) =
    (Inr (FilterUserDefinedMetadata env raw),
     nsc\<lparr>c := cache_Set outcome k (FilterUserDefinedMetadata env raw) (c nsc)\<rparr>,
     w\<lparr>ext := x'', calls := calls w @ [CallDatastoreReadNamespace nsName revision,
          CallNamespaceCacheKey nsName revision,
          CallCacheSet k (FilterUserDefinedMetadata env raw)
            (proto_Size env (FilterUserDefinedMetadata env raw))]\<rparr>)"
  using assms
  by (simp add: loadNamespace_def DatastoreReadNamespace_def NamespaceCacheKey_def Set_cache_def
      Let_def)


lemma cache_Set_holds:
  assumes "\<forall>k d. entries ch k = Some d \<longrightarrow> ok d" and "ok v"
  shows "\<forall>k' d. entries (cache_Set outcome k v ch) k' = Some d \<longrightarrow> ok d"
  using assms by (auto simp: cache_Set_def Let_def split: prod.splits if_splits)

lemma ReadNamespace_holds:
  assumes filt: "\<forall>d. ok (FilterUserDefinedMetadata env d)"
    and inv: "cacheHoldsOnly ok nsc"
    and run: "ReadNamespace env nsName revision nsc w = (res, nsc', w')"
  shows "cacheHoldsOnly ok nsc' \<and> (\<forall>d. res = Inr d \<longrightarrow> ok d)"
proof -
  obtain r1 x1 where key: "ds_NamespaceCacheKey env nsName revision (ext w) = (r1, x1)"
    by (cases "ds_NamespaceCacheKey env nsName revision (ext w)")
  show ?thesis
  proof (cases r1)
    case (Inl err)
    with key run inv show ?thesis
      by (auto simp: ReadNamespace_key_error)
  next
    case (Inr k)
    show ?thesis
    proof (cases "cache_Get k (c nsc)")
      case (Some d)
      then have "entries (c nsc) k = Some d"
        by (simp add: cache_Get_def split: if_splits)
      with inv have "ok d"
        by (simp add: cacheHoldsOnly_def)
      with key Inr Some run inv show ?thesis
        by (auto simp: ReadNamespace_hit)
    next
      case None
      from inv have old: "\<forall>k d. entries (c nsc) k = Some d \<longrightarrow> ok d"
        by (simp add: cacheHoldsOnly_def)
      from filt have new: "\<And>raw outcome k'. \<forall>k'' d.
          entries (cache_Set outcome k' (FilterUserDefinedMetadata env raw) (c nsc)) k'' = Some d
            \<longrightarrow> ok d"
        using cache_Set_holds [OF old] by blast
      from key Inr None run inv filt new show ?thesis
        by (auto simp: ReadNamespace_miss loadNamespace_def DatastoreReadNamespace_def
            NamespaceCacheKey_def Set_cache_def Let_def cacheHoldsOnly_def
            split: prod.splits sum.splits if_splits)
    qed
  qed
qed

lemma serve_holds:
  assumes filt: "\<forall>d. ok (FilterUserDefinedMetadata env d)"
    and inv: "cacheHoldsOnly ok nsc"
    and run: "serve env req nsc w = (resp, nsc', w')"
  shows "cacheHoldsOnly ok nsc' \<and> (\<forall>d \<in> set (definitionsOf resp). ok d)"
proof (cases req)
  case (ReqReadNamespace n r)
  obtain res s' where read: "ReadNamespace env n r nsc w = (res, s')"
    by (cases "ReadNamespace env n r nsc w")
  with run ReqReadNamespace ReadNamespace_holds [OF filt inv, of n r w res nsc' w']
  show ?thesis
    by (cases res) auto
next
  case (ReqReadNamespaceAndTypes n r)
  obtain res s' where read: "ReadNamespace env n r nsc w = (res, s')"
    by (cases "ReadNamespace env n r nsc w")
  with run ReqReadNamespaceAndTypes ReadNamespace_holds [OF filt inv, of n r w res nsc']
  show ?thesis
    by (cases res) (auto simp: ReadNamespaceAndTypes_def Build_def split: prod.splits)
next
  case (ReqCheckNamespaceAndRelation n rel allow r)
  obtain res s' where read: "ReadNamespace env n r nsc w = (res, s')"
    by (cases "ReadNamespace env n r nsc w")
  with run ReqCheckNamespaceAndRelation ReadNamespace_holds [OF filt inv, of n r w res nsc']
  show ?thesis
    by (cases res) (auto simp: CheckNamespaceAndRelation_def split: prod.splits if_splits)
next
  case ReqClose
  with run show ?thesis
    by (auto simp: Close_def cache_Close_def cacheHoldsOnly_def)
qed

lemma serveAll_holds:
  assumes filt: "\<forall>d. ok (FilterUserDefinedMetadata env d)"
  shows "cacheHoldsOnly ok nsc \<Longrightarrow>
    \<forall>resp \<in> set (fst (serveAll env reqs nsc w)). \<forall>d \<in> set (definitionsOf resp). ok d"
proof (induction reqs arbitrary: nsc w)
  case Nil
  then show ?case by simp
next
  case (Cons req reqs)
  obtain resp nsc' w' where step: "serve env req nsc w = (resp, nsc', w')"
    by (cases "serve env req nsc w")
  from serve_holds [OF filt Cons.prems step]
  have inv': "cacheHoldsOnly ok nsc'" and here: "\<forall>d \<in> set (definitionsOf resp). ok d"
    by simp_all
  from Cons.IH [OF inv', of w'] here step show ?case
    by (auto split: prod.splits)
qed

section \<open>Properties of the manager\<close>

text \<open>
  C1. Let the key derivation be what the datastore's contract makes it: a function of the
  name and the revision, or at least one whose errors are never the datastore's
  not-found error. Then an error of the key derivation is returned unchanged, before the
  probe and after the fetch; a fetch that reports not-found gives NamespaceNotFound
  with the requested name; any other error of the fetch is returned unchanged.
\<close>

theorem ReadNamespace_error_results:
  assumes contract:
    "(\<forall>x x'. fst (ds_NamespaceCacheKey env nsName revision x) =
        fst (ds_NamespaceCacheKey env nsName revision x'))
     \<or> (\<forall>x e x'. ds_NamespaceCacheKey env nsName revision x = (Inl e, x')
          \<longrightarrow> \<not> errors_As_DatastoreErrNamespaceNotFound e)"
  shows
    "(ds_NamespaceCacheKey env nsName revision (ext w) = (Inl err, xa)
        \<longrightarrow> fst (ReadNamespace env nsName revision nsc w) = Inl err)
     \<and> (ds_NamespaceCacheKey env nsName revision (ext w) = (Inr k, xa)
          \<and> cache_Get k (c nsc) = None
          \<and> ds_ReadNamespace env nsName revision xa = (Inl err, xb)
        \<longrightarrow> fst (ReadNamespace env nsName revision nsc w) =
             (if errors_As_DatastoreErrNamespaceNotFound err
              then Inl (NewNamespaceNotFoundErr nsName) else Inl err))
     \<and> (ds_NamespaceCacheKey env nsName revision (ext w) = (Inr k, xa)
          \<and> cache_Get k (c nsc) = None
          \<and> ds_ReadNamespace env nsName revision xa = (Inr raw, xb)
          \<and> ds_NamespaceCacheKey env nsName revision xb = (Inl err, xc)
        \<longrightarrow> fst (ReadNamespace env nsName revision nsc w) = Inl err)"
proof (intro conjI impI)
  assume "ds_NamespaceCacheKey env nsName revision (ext w) = (Inl err, xa)"
  then show "fst (ReadNamespace env nsName revision nsc w) = Inl err"
    by (simp add: ReadNamespace_key_error)
next
  assume "ds_NamespaceCacheKey env nsName revision (ext w) = (Inr k, xa)
    \<and> cache_Get k (c nsc) = None
    \<and> ds_ReadNamespace env nsName revision xa = (Inl err, xb)"
  then show "fst (ReadNamespace env nsName revision nsc w) =
      (if errors_As_DatastoreErrNamespaceNotFound err
       then Inl (NewNamespaceNotFoundErr nsName) else Inl err)"
    by (simp add: ReadNamespace_miss loadNamespace_fetch_error)
next
  assume path: "ds_NamespaceCacheKey env nsName revision (ext w) = (Inr k, xa)
    \<and> cache_Get k (c nsc) = None
    \<and> ds_ReadNamespace env nsName revision xa = (Inr raw, xb)
    \<and> ds_NamespaceCacheKey env nsName revision xb = (Inl err, xc)"
  have other: "\<not> errors_As_DatastoreErrNamespaceNotFound err"
    using contract
  proof
    assume "\<forall>x x'. fst (ds_NamespaceCacheKey env nsName revision x) =
        fst (ds_NamespaceCacheKey env nsName revision x')"
    then have "fst (ds_NamespaceCacheKey env nsName revision (ext w)) =
        fst (ds_NamespaceCacheKey env nsName revision xb)"
      by blast
    with path show ?thesis by simp
  next
    assume "\<forall>x e x'. ds_NamespaceCacheKey env nsName revision x = (Inl e, x')
        \<longrightarrow> \<not> errors_As_DatastoreErrNamespaceNotFound e"
    with path show ?thesis by blast
  qed
  from path other show "fst (ReadNamespace env nsName revision nsc w) = Inl err"
    by (simp add: ReadNamespace_miss loadNamespace_key_error)
qed

theorem ReadNamespace_error_results_witness:
  "fst (ReadNamespace strictKeys ''document'' (- 1, 0) freshManager freshWorld) =
     Inl (ErrorsNew ''invalid revision'')
   \<and> fst (ReadNamespace oneNamespace ''folder'' (1, 0) freshManager freshWorld) =
     Inl (ErrNamespaceNotFound ''folder'')
   \<and> fst (ReadNamespace unreachableDatastore ''document'' (1, 0) freshManager freshWorld) =
     Inl (ErrorsNew ''connection refused'')
   \<and> fst (ReadNamespace keyExpiresAfterFetch ''document'' (1, 0) freshManager freshWorld) =
     Inl (ErrorsNew ''revision expired'')"
proof -
  have strict: "\<forall>x x'. fst (ds_NamespaceCacheKey strictKeys ''document'' (- 1, 0) x) =
      fst (ds_NamespaceCacheKey strictKeys ''document'' (- 1, 0) x')"
    by (simp add: strictKeys_def oneNamespace_def)
  have refused: "ds_NamespaceCacheKey strictKeys ''document'' (- 1, 0) (ext freshWorld) =
      (Inl (ErrorsNew ''invalid revision''), 0)"
    by (simp add: strictKeys_def oneNamespace_def freshWorld_def)
  from ReadNamespace_error_results
    [where env = strictKeys and nsName = "''document''" and revision = "(- 1, 0)"
      and w = freshWorld and nsc = freshManager and xa = 0
      and err = "ErrorsNew ''invalid revision''", OF disjI1, OF strict] refused
  have a: "fst (ReadNamespace strictKeys ''document'' (- 1, 0) freshManager freshWorld) =
      Inl (ErrorsNew ''invalid revision'')"
    by simp
  have fixed: "\<forall>x x'. fst (ds_NamespaceCacheKey oneNamespace ''folder'' (1, 0) x) =
      fst (ds_NamespaceCacheKey oneNamespace ''folder'' (1, 0) x')"
    by (simp add: oneNamespace_def)
  have key: "ds_NamespaceCacheKey oneNamespace ''folder'' (1, 0) (ext freshWorld) =
      (Inr ''folder@I'', 0)"
    by (simp add: oneNamespace_def freshWorld_def keyOf_def)
  have miss: "cache_Get ''folder@I'' (c freshManager) = None"
    by (simp add: cache_Get_def freshManager_def)
  have fetch: "ds_ReadNamespace oneNamespace ''folder'' (1, 0) 0 =
      (Inl (DatastoreErrNamespaceNotFound ''folder''), Suc 0)"
    by (simp add: oneNamespace_def)
  from ReadNamespace_error_results
    [where env = oneNamespace and nsName = "''folder''" and revision = "(1, 0)"
      and w = freshWorld and nsc = freshManager and k = "''folder@I''" and xa = 0
      and err = "DatastoreErrNamespaceNotFound ''folder''" and xb = "Suc 0",
      OF disjI1, OF fixed]
    key miss fetch
  have b: "fst (ReadNamespace oneNamespace ''folder'' (1, 0) freshManager freshWorld) =
      Inl (ErrNamespaceNotFound ''folder'')"
    by (simp add: NewNamespaceNotFoundErr_def)
  have fixed': "\<forall>x x'. fst (ds_NamespaceCacheKey unreachableDatastore ''document'' (1, 0) x) =
      fst (ds_NamespaceCacheKey unreachableDatastore ''document'' (1, 0) x')"
    by (simp add: unreachableDatastore_def oneNamespace_def)
  have key': "ds_NamespaceCacheKey unreachableDatastore ''document'' (1, 0) (ext freshWorld) =
      (Inr ''document@I'', 0)"
    by (simp add: unreachableDatastore_def oneNamespace_def freshWorld_def keyOf_def)
  have miss': "cache_Get ''document@I'' (c freshManager) = None"
    by (simp add: cache_Get_def freshManager_def)
  have fetch': "ds_ReadNamespace unreachableDatastore ''document'' (1, 0) 0 =
      (Inl (ErrorsNew ''connection refused''), Suc 0)"
    by (simp add: unreachableDatastore_def oneNamespace_def)
  from ReadNamespace_error_results
    [where env = unreachableDatastore and nsName = "''document''" and revision = "(1, 0)"
      and w = freshWorld and nsc = freshManager and k = "''document@I''" and xa = 0
      and err = "ErrorsNew ''connection refused''" and xb = "Suc 0",
      OF disjI1, OF fixed']
    key' miss' fetch'
  have c: "fst (ReadNamespace unreachableDatastore ''document'' (1, 0) freshManager
      freshWorld) = Inl (ErrorsNew ''connection refused'')"
    by simp
  have kind: "\<forall>x e x'. ds_NamespaceCacheKey keyExpiresAfterFetch ''document'' (1, 0) x =
      (Inl e, x') \<longrightarrow> \<not> errors_As_DatastoreErrNamespaceNotFound e"
    by (auto simp: keyExpiresAfterFetch_def oneNamespace_def split: if_splits)
  have key'': "ds_NamespaceCacheKey keyExpiresAfterFetch ''document'' (1, 0) (ext freshWorld) =
      (Inr ''document@I'', 0)"
    by (simp add: keyExpiresAfterFetch_def oneNamespace_def freshWorld_def keyOf_def)
  have fetch'': "ds_ReadNamespace keyExpiresAfterFetch ''document'' (1, 0) 0 =
      (Inr documentDef, Suc 0)"
    by (simp add: keyExpiresAfterFetch_def oneNamespace_def)
  have expired: "ds_NamespaceCacheKey keyExpiresAfterFetch ''document'' (1, 0) (Suc 0) =
      (Inl (ErrorsNew ''revision expired''), Suc 0)"
    by (simp add: keyExpiresAfterFetch_def oneNamespace_def)
  from ReadNamespace_error_results
    [where env = keyExpiresAfterFetch and nsName = "''document''" and revision = "(1, 0)"
      and w = freshWorld and nsc = freshManager and k = "''document@I''" and xa = 0
      and raw = documentDef and xb = "Suc 0" and xc = "Suc 0"
      and err = "ErrorsNew ''revision expired''", OF disjI2, OF kind]
    key'' miss' fetch'' expired
  have d: "fst (ReadNamespace keyExpiresAfterFetch ''document'' (1, 0) freshManager
      freshWorld) = Inl (ErrorsNew ''revision expired'')"
    by simp
  from a b c d show ?thesis by simp
qed

text \<open>
  C2. On a cache miss with a successful load, the definition returned and the definition
  handed to the cache are both FilterUserDefinedMetadata of the definition the datastore
  returned. And whatever the filter never lets through (\<open>exposed\<close>), no caller sees:
  from a manager whose cache holds nothing exposed (a new manager's cache is empty),
  no response to any sequence of calls carries an exposed definition, be it read from
  the datastore or from the cache.
\<close>

theorem ReadNamespace_filters_metadata:
  "(ds_NamespaceCacheKey env nsName revision (ext w) = (Inr k, xa)
      \<and> cache_Get k (c nsc) = None
      \<and> ds_ReadNamespace env nsName revision xa = (Inr raw, xb)
      \<and> ds_NamespaceCacheKey env nsName revision xb = (Inr k', xc)
      \<and> cache_policy env k' (proto_Size env (FilterUserDefinedMetadata env raw)) xc =
          (outcome, xd)
    \<longrightarrow> ReadNamespace env nsName revision nsc w =
          (Inr (FilterUserDefinedMetadata env raw),
           nsc\<lparr>c := cache_Set outcome k' (FilterUserDefinedMetadata env raw) (c nsc)\<rparr>,
           w\<lparr>ext := xd,
             calls := calls w @
               [CallNamespaceCacheKey nsName revision, CallCacheGet k,
                CallDatastoreReadNamespace nsName revision,
                CallNamespaceCacheKey nsName revision,
                CallCacheSet k' (FilterUserDefinedMetadata env raw)
                  (proto_Size env (FilterUserDefinedMetadata env raw))]\<rparr>))
   \<and> ((\<forall>d. \<not> exposed (FilterUserDefinedMetadata env d))
        \<and> cacheHoldsOnly (\<lambda>d. \<not> exposed d) nsc
    \<longrightarrow> (\<forall>resp \<in> set (fst (serveAll env reqs nsc w)).
           \<forall>d \<in> set (definitionsOf resp). \<not> exposed d))"
proof (intro conjI impI)
  assume path: "ds_NamespaceCacheKey env nsName revision (ext w) = (Inr k, xa)
      \<and> cache_Get k (c nsc) = None
      \<and> ds_ReadNamespace env nsName revision xa = (Inr raw, xb)
      \<and> ds_NamespaceCacheKey env nsName revision xb = (Inr k', xc)
      \<and> cache_policy env k' (proto_Size env (FilterUserDefinedMetadata env raw)) xc =
          (outcome, xd)"
  let ?w = "w\<lparr>ext := xa,
      calls := calls w @ [CallNamespaceCacheKey nsName revision, CallCacheGet k]\<rparr>"
  from path have "loadNamespace env nsName revision (nsc, ?w) =
    (Inr (FilterUserDefinedMetadata env raw),
     nsc\<lparr>c := cache_Set outcome k' (FilterUserDefinedMetadata env raw) (c nsc)\<rparr>,
     ?w\<lparr>ext := xd, calls := calls ?w @ [CallDatastoreReadNamespace nsName revision,
          CallNamespaceCacheKey nsName revision,
          CallCacheSet k' (FilterUserDefinedMetadata env raw)
            (proto_Size env (FilterUserDefinedMetadata env raw))]\<rparr>)"
    by (simp add: loadNamespace_stored
        [where env = env and w = ?w and raw = raw and x = xb and k = k' and x' = xc
          and outcome = outcome and x'' = xd])
  with path show "ReadNamespace env nsName revision nsc w =
          (Inr (FilterUserDefinedMetadata env raw),
           nsc\<lparr>c := cache_Set outcome k' (FilterUserDefinedMetadata env raw) (c nsc)\<rparr>,
           w\<lparr>ext := xd,
             calls := calls w @
               [CallNamespaceCacheKey nsName revision, CallCacheGet k,
                CallDatastoreReadNamespace nsName revision,
                CallNamespaceCacheKey nsName revision,
                CallCacheSet k' (FilterUserDefinedMetadata env raw)
                  (proto_Size env (FilterUserDefinedMetadata env raw))]\<rparr>)"
    by (simp add: ReadNamespace_miss)
next
  assume "(\<forall>d. \<not> exposed (FilterUserDefinedMetadata env d))
      \<and> cacheHoldsOnly (\<lambda>d. \<not> exposed d) nsc"
  then show "\<forall>resp \<in> set (fst (serveAll env reqs nsc w)).
      \<forall>d \<in> set (definitionsOf resp). \<not> exposed d"
    using serveAll_holds [where ok = "\<lambda>d. \<not> exposed d" and env = env and nsc = nsc]
    by blast
qed

lemma removeAllMetadata_clean: "\<not> carriesMetadata (removeAllMetadata d)"
  by (simp add: carriesMetadata_def removeAllMetadata_def list_ex_iff)

lemma freshManager_holds: "cacheHoldsOnly ok freshManager"
  by (simp add: cacheHoldsOnly_def freshManager_def)

lemma read_document_twice:
  "fst (serveAll oneNamespace
         [ReqReadNamespace ''document'' (1, 0), ReqReadNamespace ''document'' (1, 0)]
         freshManager freshWorld) =
     [RespReadNamespace (Inr (removeAllMetadata documentDef)),
      RespReadNamespace (Inr (removeAllMetadata documentDef))]
   \<and> calls (snd (snd (serveAll oneNamespace
         [ReqReadNamespace ''document'' (1, 0), ReqReadNamespace ''document'' (1, 0)]
         freshManager freshWorld))) =
     [CallNamespaceCacheKey ''document'' (1, 0), CallCacheGet ''document@I'',
      CallDatastoreReadNamespace ''document'' (1, 0),
      CallNamespaceCacheKey ''document'' (1, 0),
      CallCacheSet ''document@I'' (removeAllMetadata documentDef) 10,
      CallNamespaceCacheKey ''document'' (1, 0), CallCacheGet ''document@I'']"
  by (simp add: ReadNamespace_def loadNamespace_def NamespaceCacheKey_def
      DatastoreReadNamespace_def Get_def Set_cache_def Do_def cache_Get_def cache_Set_def
      oneNamespace_def freshManager_def freshWorld_def keyOf_def Let_def
      removeAllMetadata_def documentDef_def)

theorem ReadNamespace_filters_metadata_witness:
  "carriesMetadata documentDef
   \<and> fst (ReadNamespace oneNamespace ''document'' (1, 0) freshManager freshWorld) =
       Inr (removeAllMetadata documentDef)
   \<and> fst (serveAll oneNamespace
         [ReqReadNamespace ''document'' (1, 0), ReqReadNamespace ''document'' (1, 0)]
         freshManager freshWorld) =
       [RespReadNamespace (Inr (removeAllMetadata documentDef)),
        RespReadNamespace (Inr (removeAllMetadata documentDef))]
   \<and> \<not> carriesMetadata (removeAllMetadata documentDef)"
proof -
  have filt: "FilterUserDefinedMetadata oneNamespace = removeAllMetadata"
    by (simp add: oneNamespace_def)
  have key: "ds_NamespaceCacheKey oneNamespace ''document'' (1, 0) (ext freshWorld) =
      (Inr ''document@I'', 0)"
    "ds_NamespaceCacheKey oneNamespace ''document'' (1, 0) (Suc 0) =
      (Inr ''document@I'', Suc 0)"
    by (simp_all add: oneNamespace_def freshWorld_def keyOf_def)
  have miss: "cache_Get ''document@I'' (c freshManager) = None"
    by (simp add: cache_Get_def freshManager_def)
  have fetch: "ds_ReadNamespace oneNamespace ''document'' (1, 0) 0 =
      (Inr documentDef, Suc 0)"
    by (simp add: oneNamespace_def)
  have policy: "cache_policy oneNamespace ''document@I''
      (proto_Size oneNamespace (FilterUserDefinedMetadata oneNamespace documentDef)) (Suc 0) =
      ((True, []), Suc 0)"
    by (simp add: oneNamespace_def)
  have dirty: "carriesMetadata documentDef"
    by (simp add: carriesMetadata_def documentDef_def)
  from ReadNamespace_filters_metadata
    [where env = oneNamespace and nsName = "''document''" and revision = "(1, 0)"
      and w = freshWorld and nsc = freshManager and k = "''document@I''" and xa = 0
      and raw = documentDef and xb = "Suc 0" and k' = "''document@I''" and xc = "Suc 0"
      and outcome = "(True, [])" and xd = "Suc 0"]
    key miss fetch policy
  have first: "fst (ReadNamespace oneNamespace ''document'' (1, 0) freshManager freshWorld) =
      Inr (removeAllMetadata documentDef)"
    by (simp add: filt)
  from ReadNamespace_filters_metadata
    [where env = oneNamespace and exposed = carriesMetadata and nsc = freshManager
      and reqs = "[ReqReadNamespace ''document'' (1, 0), ReqReadNamespace ''document'' (1, 0)]"
      and w = freshWorld, THEN conjunct2]
    removeAllMetadata_clean freshManager_holds
  have "\<forall>resp \<in> set (fst (serveAll oneNamespace
         [ReqReadNamespace ''document'' (1, 0), ReqReadNamespace ''document'' (1, 0)]
         freshManager freshWorld)). \<forall>d \<in> set (definitionsOf resp). \<not> carriesMetadata d"
    by (simp add: filt)
  with read_document_twice have clean: "\<not> carriesMetadata (removeAllMetadata documentDef)"
    by simp
  from dirty first read_document_twice clean show ?thesis
    by simp
qed

text \<open>
  C3. When the cache has an entry under the derived key, ReadNamespace returns that
  entry with no error, and calls nothing but the key derivation and the cache probe:
  the datastore is not asked for the namespace, and the manager is unchanged.
\<close>

theorem ReadNamespace_cache_hit:
  assumes "ds_NamespaceCacheKey env nsName revision (ext w) = (Inr k, x)"
    and "cache_Get k (c nsc) = Some d"
  shows "ReadNamespace env nsName revision nsc w =
    (Inr d, nsc,
     w\<lparr>ext := x, calls := calls w @ [CallNamespaceCacheKey nsName revision, CallCacheGet k]\<rparr>)"
  using assms by (rule ReadNamespace_hit)

theorem ReadNamespace_cache_hit_witness:
  "ReadNamespace oneNamespace ''folder'' (2, 0)
     (freshManager\<lparr>c := \<lparr>entries = [''folder@II'' \<mapsto> documentDef], isClosed = False\<rparr>\<rparr>)
     freshWorld =
   (Inr documentDef,
    freshManager\<lparr>c := \<lparr>entries = [''folder@II'' \<mapsto> documentDef], isClosed = False\<rparr>\<rparr>,
    \<lparr>ext = 0, calls = [CallNamespaceCacheKey ''folder'' (2, 0), CallCacheGet ''folder@II'']\<rparr>)"
proof -
  have key: "ds_NamespaceCacheKey oneNamespace ''folder'' (2, 0) (ext freshWorld) =
      (Inr ''folder@II'', 0)"
    by (simp add: oneNamespace_def freshWorld_def keyOf_def eval_nat_numeral)
  have hit: "cache_Get ''folder@II''
      (c (freshManager\<lparr>c := \<lparr>entries = [''folder@II'' \<mapsto> documentDef], isClosed = False\<rparr>\<rparr>)) =
      Some documentDef"
    by (simp add: cache_Get_def)
  from ReadNamespace_cache_hit [OF key hit] show ?thesis
    by (simp add: freshWorld_def)
qed

text \<open>
  C9. A call of ReadNamespace that returns an error leaves the manager, and so its
  cache, as it was, and has made no call of the cache's Set.
\<close>

theorem ReadNamespace_error_stores_nothing:
  assumes "ReadNamespace env nsName revision nsc w = (Inl err, nsc', w')"
  shows "nsc' = nsc \<and> filter isCacheSet (calls w') = filter isCacheSet (calls w)"
  using assms
  by (auto simp: ReadNamespace_def loadNamespace_def NamespaceCacheKey_def
      DatastoreReadNamespace_def Get_def Set_cache_def Do_def Let_def
      split: prod.splits sum.splits option.splits if_splits)

theorem ReadNamespace_error_stores_nothing_witness:
  "ReadNamespace keyLostAfterFetch ''document'' (1, 0) freshManager freshWorld =
     (Inl (ErrNamespaceNotFound ''document''), freshManager,
      \<lparr>ext = Suc 0,
       calls = [CallNamespaceCacheKey ''document'' (1, 0), CallCacheGet ''document@I'',
                CallDatastoreReadNamespace ''document'' (1, 0),
                CallNamespaceCacheKey ''document'' (1, 0)]\<rparr>)
   \<and> filter isCacheSet
       [CallNamespaceCacheKey ''document'' (1, 0), CallCacheGet ''document@I'',
        CallDatastoreReadNamespace ''document'' (1, 0),
        CallNamespaceCacheKey ''document'' (1, 0)] = filter isCacheSet (calls freshWorld)"
proof -
  have run: "ReadNamespace keyLostAfterFetch ''document'' (1, 0) freshManager freshWorld =
     (Inl (ErrNamespaceNotFound ''document''), freshManager,
      \<lparr>ext = Suc 0,
       calls = [CallNamespaceCacheKey ''document'' (1, 0), CallCacheGet ''document@I'',
                CallDatastoreReadNamespace ''document'' (1, 0),
                CallNamespaceCacheKey ''document'' (1, 0)]\<rparr>)"
    by (simp add: ReadNamespace_def loadNamespace_def NamespaceCacheKey_def
      DatastoreReadNamespace_def Get_def Do_def cache_Get_def keyLostAfterFetch_def
      oneNamespace_def freshManager_def freshWorld_def keyOf_def NewNamespaceNotFoundErr_def
      Let_def)
  from ReadNamespace_error_stores_nothing [OF run] run show ?thesis
    by simp
qed

lemma hasRelationNamed_iff:
  "hasRelationNamed rels relation \<longleftrightarrow> relation \<in> rel_Name ` set rels"
  by (induction rels) auto

text \<open>
  C4. When ReadNamespace succeeds with definition \<open>D\<close>, CheckNamespaceAndRelation returns
  no error exactly when the wildcard is allowed and asked for, or \<open>D\<close> declares a relation
  of that name; otherwise it returns RelationNotFound with the namespace and the
  relation. The manager and the world are those ReadNamespace left: the check itself
  calls no collaborator and writes nothing to the cache.
\<close>

theorem CheckNamespaceAndRelation_result:
  assumes "ReadNamespace env namespace revision nsc w = (Inr D, nsc', w')"
  shows "CheckNamespaceAndRelation env namespace relation allowEllipsis revision nsc w =
    ((if (allowEllipsis \<and> relation = Ellipsis) \<or> relation \<in> rel_Name ` set (ns_Relation D)
      then None else Some (NewRelationNotFoundErr namespace relation)),
     nsc', w')"
  using assms by (simp add: CheckNamespaceAndRelation_def hasRelationNamed_iff)

lemma read_document:
  "ReadNamespace oneNamespace ''document'' (1, 0) freshManager freshWorld =
     (Inr (removeAllMetadata documentDef),
      \<lparr>expiration = 0,
       c = \<lparr>entries = [''document@I'' \<mapsto> removeAllMetadata documentDef], isClosed = False\<rparr>\<rparr>,
      \<lparr>ext = Suc 0,
       calls = [CallNamespaceCacheKey ''document'' (1, 0), CallCacheGet ''document@I'',
                CallDatastoreReadNamespace ''document'' (1, 0),
                CallNamespaceCacheKey ''document'' (1, 0),
                CallCacheSet ''document@I'' (removeAllMetadata documentDef) 10]\<rparr>)"
  by (simp add: ReadNamespace_def loadNamespace_def NamespaceCacheKey_def
      DatastoreReadNamespace_def Get_def Set_cache_def Do_def cache_Get_def cache_Set_def
      oneNamespace_def freshManager_def freshWorld_def keyOf_def Let_def
      removeAllMetadata_def documentDef_def fun_eq_iff)

lemma read_folder:
  "ReadNamespace oneNamespace ''folder'' (1, 0) freshManager freshWorld =
     (Inl (ErrNamespaceNotFound ''folder''), freshManager,
      \<lparr>ext = Suc 0,
       calls = [CallNamespaceCacheKey ''folder'' (1, 0), CallCacheGet ''folder@I'',
                CallDatastoreReadNamespace ''folder'' (1, 0)]\<rparr>)"
  by (simp add: ReadNamespace_def loadNamespace_def NamespaceCacheKey_def
      DatastoreReadNamespace_def Get_def Do_def cache_Get_def
      oneNamespace_def freshManager_def freshWorld_def keyOf_def Let_def
      NewNamespaceNotFoundErr_def)

theorem CheckNamespaceAndRelation_result_witness:
  "fst (CheckNamespaceAndRelation oneNamespace ''document'' ''editor'' False (1, 0)
          freshManager freshWorld) = None
   \<and> fst (CheckNamespaceAndRelation oneNamespace ''document'' ''owner'' False (1, 0)
          freshManager freshWorld) = Some (ErrRelationNotFound ''document'' ''owner'')
   \<and> fst (CheckNamespaceAndRelation oneNamespace ''document'' ''...'' True (1, 0)
          freshManager freshWorld) = None
   \<and> fst (CheckNamespaceAndRelation oneNamespace ''document'' ''...'' False (1, 0)
          freshManager freshWorld) = Some (ErrRelationNotFound ''document'' ''...'')"
  using CheckNamespaceAndRelation_result [OF read_document, of "''editor''" False]
    CheckNamespaceAndRelation_result [OF read_document, of "''owner''" False]
    CheckNamespaceAndRelation_result [OF read_document, of "''...''" True]
    CheckNamespaceAndRelation_result [OF read_document, of "''...''" False]
  by (simp add: Ellipsis_def NewRelationNotFoundErr_def removeAllMetadata_def documentDef_def)

text \<open>
  C10. When ReadNamespace fails, CheckNamespaceAndRelation returns that error, also for
  the wildcard with the wildcard allowed: the wildcard stands for the declared
  relation, never for the namespace.
\<close>

theorem CheckNamespaceAndRelation_needs_namespace:
  assumes "ReadNamespace env namespace revision nsc w = (Inl err, nsc', w')"
  shows "CheckNamespaceAndRelation env namespace Ellipsis True revision nsc w =
      (Some err, nsc', w')
    \<and> CheckNamespaceAndRelation env namespace relation allowEllipsis revision nsc w =
      (Some err, nsc', w')"
  using assms by (simp add: CheckNamespaceAndRelation_def)

theorem CheckNamespaceAndRelation_needs_namespace_witness:
  "fst (CheckNamespaceAndRelation oneNamespace ''folder'' ''...'' True (1, 0)
          freshManager freshWorld) = Some (ErrNamespaceNotFound ''folder'')"
  using CheckNamespaceAndRelation_needs_namespace [OF read_folder]
  by (simp add: Ellipsis_def)

text \<open>
  C5. ReadNamespaceAndTypes gets the definition from ReadNamespace. When that succeeds,
  it calls the builder once on the definition, and returns the definition together with
  whatever the builder returned, also when that is an error; the manager is the one
  ReadNamespace left, so the type system is neither looked up in the cache nor stored
  there. When ReadNamespace fails, the builder is not called and the error is returned.
\<close>

theorem ReadNamespaceAndTypes_result:
  "(ReadNamespace env nsName revision nsc w = (Inr D, nsc', w')
      \<longrightarrow> ReadNamespaceAndTypes env nsName revision nsc w =
           ((Some D, BuildNamespaceTypeSystemForManager env D revision), nsc',
            w'\<lparr>calls := calls w' @ [CallBuildNamespaceTypeSystem D revision]\<rparr>))
   \<and> (ReadNamespace env nsName revision nsc w = (Inl err, nsc', w')
      \<longrightarrow> ReadNamespaceAndTypes env nsName revision nsc w = ((None, None, Some err), nsc', w'))"
  by (cases "BuildNamespaceTypeSystemForManager env D revision")
    (simp add: ReadNamespaceAndTypes_def Build_def)

lemma loadNamespace_ignores_builder:
  "loadNamespace (env\<lparr>BuildNamespaceTypeSystemForManager := b\<rparr>) nsName revision =
     loadNamespace env nsName revision"
  by (rule ext)
    (simp add: loadNamespace_def NamespaceCacheKey_def DatastoreReadNamespace_def
      Set_cache_def Let_def split: prod.splits sum.splits)

lemma ReadNamespace_ignores_builder:
  "ReadNamespace (env\<lparr>BuildNamespaceTypeSystemForManager := b\<rparr>) nsName revision nsc w =
     ReadNamespace env nsName revision nsc w"
  by (simp add: ReadNamespace_def loadNamespace_ignores_builder NamespaceCacheKey_def
      split: prod.splits sum.splits option.splits)

theorem ReadNamespaceAndTypes_result_witness:
  "fst (ReadNamespaceAndTypes brokenBuilder ''document'' (1, 0) freshManager freshWorld) =
     (Some (removeAllMetadata documentDef), None, Some (ErrorsNew ''no type system''))
   \<and> fst (ReadNamespaceAndTypes oneNamespace ''document'' (1, 0) freshManager freshWorld) =
     (Some (removeAllMetadata documentDef), Some [''viewer'', ''editor''], None)
   \<and> fst (ReadNamespaceAndTypes oneNamespace ''folder'' (1, 0) freshManager freshWorld) =
     (None, None, Some (ErrNamespaceNotFound ''folder''))"
proof -
  have same: "ReadNamespace brokenBuilder ''document'' (1, 0) freshManager freshWorld =
      ReadNamespace oneNamespace ''document'' (1, 0) freshManager freshWorld"
    by (simp add: brokenBuilder_def ReadNamespace_ignores_builder)
  from ReadNamespaceAndTypes_result
    [where env = brokenBuilder and nsName = "''document''" and revision = "(1, 0)"
      and nsc = freshManager and w = freshWorld, THEN conjunct1]
    same read_document
  have a: "fst (ReadNamespaceAndTypes brokenBuilder ''document'' (1, 0) freshManager
      freshWorld) =
      (Some (removeAllMetadata documentDef), None, Some (ErrorsNew ''no type system''))"
    by (simp add: brokenBuilder_def)
  from ReadNamespaceAndTypes_result
    [where env = oneNamespace and nsName = "''document''" and revision = "(1, 0)"
      and nsc = freshManager and w = freshWorld, THEN conjunct1]
    read_document
  have b: "fst (ReadNamespaceAndTypes oneNamespace ''document'' (1, 0) freshManager
      freshWorld) =
      (Some (removeAllMetadata documentDef), Some [''viewer'', ''editor''], None)"
    by (simp add: oneNamespace_def relationNames_def removeAllMetadata_def documentDef_def)
  from ReadNamespaceAndTypes_result
    [where env = oneNamespace and nsName = "''folder''" and revision = "(1, 0)"
      and nsc = freshManager and w = freshWorld, THEN conjunct2]
    read_folder
  have c: "fst (ReadNamespaceAndTypes oneNamespace ''folder'' (1, 0) freshManager
      freshWorld) = (None, None, Some (ErrNamespaceNotFound ''folder''))"
    by simp
  from a b c show ?thesis by simp
qed

text \<open>
  C7. Without a configuration the cache is created from 10000 counters, a maximal cost
  of 16777216 (2 to the 24, 16 MiB) and 64 buffer items. Whenever the cache cannot be
  created from the configuration in force, the constructor returns the failure wrapped
  in the initialization error, and no manager.
\<close>

theorem NewCachingNamespaceManager_defaults:
  "NewCachingNamespaceManager ristretto_NewCache' expiration' None =
     (case ristretto_NewCache' \<lparr>NumCounters = 10000, MaxCost = 16777216, BufferItems = 64\<rparr> of
        Inl err \<Rightarrow> Inl (Errorf errInitialization err)
      | Inr cache' \<Rightarrow> Inr \<lparr>expiration = expiration', c = cache'\<rparr>)
   \<and> (16777216 :: int) = 2 ^ 24 \<and> (16777216 :: int) = 16 * 1024 * 1024
   \<and> (ristretto_NewCache'
         (case cacheConfig of
            None \<Rightarrow> \<lparr>NumCounters = 10000, MaxCost = 16777216, BufferItems = 64\<rparr>
          | Some cfg \<Rightarrow> cfg) = Inl err
      \<longrightarrow> NewCachingNamespaceManager ristretto_NewCache' expiration' cacheConfig =
           Inl (Errorf errInitialization err))"
proof -
  have shift: "push_bit 24 (1 :: int) = 16777216"
    by (simp add: push_bit_eq_mult)
  show ?thesis
    by (cases cacheConfig) (simp_all add: NewCachingNamespaceManager_def shift)
qed

theorem NewCachingNamespaceManager_defaults_witness:
  "NewCachingNamespaceManager ristretto_NewCache 5 None =
     Inr \<lparr>expiration = 5, c = \<lparr>entries = Map.empty, isClosed = False\<rparr>\<rparr>
   \<and> NewCachingNamespaceManager ristretto_NewCache 5
       (Some \<lparr>NumCounters = 10000, MaxCost = 0, BufferItems = 64\<rparr>) =
     Inl (Errorf ''unable to initialize namespace manager: %w''
            (ErrorsNew ''MaxCost can't be zero''))"
proof -
  have bad: "ristretto_NewCache
      (case Some \<lparr>NumCounters = 10000, MaxCost = 0, BufferItems = 64\<rparr> of
         None \<Rightarrow> \<lparr>NumCounters = 10000, MaxCost = 16777216, BufferItems = 64\<rparr>
       | Some cfg \<Rightarrow> cfg) = Inl (ErrorsNew ''MaxCost can't be zero'')"
    by (simp add: ristretto_NewCache_def)
  from NewCachingNamespaceManager_defaults
    [where ristretto_NewCache' = ristretto_NewCache and expiration' = 5
      and cacheConfig = "Some \<lparr>NumCounters = 10000, MaxCost = 0, BufferItems = 64\<rparr>"
      and err = "ErrorsNew ''MaxCost can't be zero''"] bad
  have a: "NewCachingNamespaceManager ristretto_NewCache 5 None =
      Inr \<lparr>expiration = 5, c = \<lparr>entries = Map.empty, isClosed = False\<rparr>\<rparr>"
    and b: "NewCachingNamespaceManager ristretto_NewCache 5
       (Some \<lparr>NumCounters = 10000, MaxCost = 0, BufferItems = 64\<rparr>) =
      Inl (Errorf errInitialization (ErrorsNew ''MaxCost can't be zero''))"
    by (simp_all add: ristretto_NewCache_def)
  from a b show ?thesis
    by (simp add: errInitialization_def)
qed

lemma loadNamespace_expiration:
  "loadNamespace env nsName revision (nsc\<lparr>expiration := e\<rparr>, w) =
     (case loadNamespace env nsName revision (nsc, w) of
        (res, nsc', w') \<Rightarrow> (res, nsc'\<lparr>expiration := e\<rparr>, w'))"
  by (simp add: loadNamespace_def Set_cache_def Let_def split: prod.splits sum.splits)

lemma ReadNamespace_expiration:
  "ReadNamespace env nsName revision (nsc\<lparr>expiration := e\<rparr>) w =
     (case ReadNamespace env nsName revision nsc w of
        (res, nsc', w') \<Rightarrow> (res, nsc'\<lparr>expiration := e\<rparr>, w'))"
  by (simp add: ReadNamespace_def Get_def Do_def loadNamespace_expiration
      split: prod.splits sum.splits option.splits)

lemma serve_expiration:
  "serve env req (nsc\<lparr>expiration := e\<rparr>) w =
     (case serve env req nsc w of
        (resp, nsc', w') \<Rightarrow> (resp, nsc'\<lparr>expiration := e\<rparr>, w'))"
  by (cases req)
    (auto simp: ReadNamespace_expiration ReadNamespaceAndTypes_def
      CheckNamespaceAndRelation_def Close_def split: prod.splits sum.splits)

lemma serveAll_expiration:
  "serveAll env reqs (nsc\<lparr>expiration := e\<rparr>) w =
     (case serveAll env reqs nsc w of
        (resps, nsc', w') \<Rightarrow> (resps, nsc'\<lparr>expiration := e\<rparr>, w'))"
proof (induction reqs arbitrary: nsc w)
  case Nil
  show ?case by simp
next
  case (Cons req reqs)
  show ?case
    by (simp add: serve_expiration Cons.IH split: prod.splits)
qed

lemma NewCachingNamespaceManager_expiration:
  "NewCachingNamespaceManager newCache e cacheConfig =
     map_sum id (\<lambda>nsc. nsc\<lparr>expiration := e\<rparr>) (NewCachingNamespaceManager newCache e' cacheConfig)"
  by (simp add: NewCachingNamespaceManager_def Let_def split: sum.splits)

text \<open>
  C8. Two constructions that differ only in the expiration succeed or fail alike, with
  the same error or the same cache. The managers they give answer every sequence of
  operations with the same responses, make the same calls of the collaborators and end
  with the same cache: the expiration is kept in the manager and nothing reads it.
\<close>

theorem expiration_is_never_read:
  "map_sum id c (NewCachingNamespaceManager newCache e cacheConfig) =
     map_sum id c (NewCachingNamespaceManager newCache e' cacheConfig)
   \<and> fst (serveAll env reqs (nsc\<lparr>expiration := e\<rparr>) w) =
       fst (serveAll env reqs (nsc\<lparr>expiration := e'\<rparr>) w)
   \<and> c (fst (snd (serveAll env reqs (nsc\<lparr>expiration := e\<rparr>) w))) =
       c (fst (snd (serveAll env reqs (nsc\<lparr>expiration := e'\<rparr>) w)))
   \<and> expiration (fst (snd (serveAll env reqs (nsc\<lparr>expiration := e\<rparr>) w))) = e
   \<and> snd (snd (serveAll env reqs (nsc\<lparr>expiration := e\<rparr>) w)) =
       snd (snd (serveAll env reqs (nsc\<lparr>expiration := e'\<rparr>) w))
   \<and> (case NewCachingNamespaceManager newCache e cacheConfig of
        Inl err \<Rightarrow> True
      | Inr m \<Rightarrow>
          (case NewCachingNamespaceManager newCache e' cacheConfig of
             Inl err' \<Rightarrow> False
           | Inr m' \<Rightarrow> fst (serveAll env reqs m w) = fst (serveAll env reqs m' w)))"
proof -
  have made: "map_sum id c (NewCachingNamespaceManager newCache e cacheConfig) =
      map_sum id c (NewCachingNamespaceManager newCache e' cacheConfig)"
    by (simp add: NewCachingNamespaceManager_def Let_def split: sum.splits)
  have served: "\<And>d. serveAll env reqs (nsc\<lparr>expiration := d\<rparr>) w =
      (case serveAll env reqs nsc w of
         (resps, nsc', w') \<Rightarrow> (resps, nsc'\<lparr>expiration := d\<rparr>, w'))"
    by (rule serveAll_expiration)
  have built: "(case NewCachingNamespaceManager newCache e cacheConfig of
        Inl err \<Rightarrow> True
      | Inr m \<Rightarrow>
          (case NewCachingNamespaceManager newCache e' cacheConfig of
             Inl err' \<Rightarrow> False
           | Inr m' \<Rightarrow> fst (serveAll env reqs m w) = fst (serveAll env reqs m' w)))"
  proof (cases "NewCachingNamespaceManager newCache e' cacheConfig")
    case (Inl err')
    then show ?thesis
      by (simp add: NewCachingNamespaceManager_expiration [of newCache e cacheConfig e'])
  next
    case (Inr m')
    then show ?thesis
      by (simp add: NewCachingNamespaceManager_expiration [of newCache e cacheConfig e']
          serveAll_expiration split: prod.splits)
  qed
  from made built show ?thesis
    by (simp add: served split: prod.splits)
qed

theorem expiration_is_never_read_witness:
  "fst (serveAll oneNamespace
          [ReqReadNamespaceAndTypes ''document'' (1, 0),
           ReqCheckNamespaceAndRelation ''document'' ''owner'' False (1, 0), ReqClose,
           ReqReadNamespace ''folder'' (1, 0)]
          (freshManager\<lparr>expiration := 5\<rparr>) freshWorld) =
   fst (serveAll oneNamespace
          [ReqReadNamespaceAndTypes ''document'' (1, 0),
           ReqCheckNamespaceAndRelation ''document'' ''owner'' False (1, 0), ReqClose,
           ReqReadNamespace ''folder'' (1, 0)]
          (freshManager\<lparr>expiration := 3600000000000\<rparr>) freshWorld)"
  using expiration_is_never_read
    [where env = oneNamespace and nsc = freshManager and w = freshWorld and e = 5
      and e' = 3600000000000
      and reqs = "[ReqReadNamespaceAndTypes ''document'' (1, 0),
           ReqCheckNamespaceAndRelation ''document'' ''owner'' False (1, 0), ReqClose,
           ReqReadNamespace ''folder'' (1, 0)]"]
  by blast

section \<open>Overlapping calls\<close>

lemma step_idle:
  assumes "i < length ths \<Longrightarrow>
    (\<exists>n r k. ths ! i = Waiting n r k) \<or> (\<exists>res. ths ! i = Returned res)"
  shows "step env i \<lparr>manager = nsc, outside = w, threads = ths\<rparr> =
    \<lparr>manager = nsc, outside = w, threads = ths\<rparr>"
  using assms by (cases "i < length ths") (auto simp: step_def)

lemma run_idle:
  assumes "\<forall>th \<in> set ths. (\<exists>n r k. th = Waiting n r k) \<or> (\<exists>res. th = Returned res)"
  shows "run env sched \<lparr>manager = nsc, outside = w, threads = ths\<rparr> =
    \<lparr>manager = nsc, outside = w, threads = ths\<rparr>"
proof (induction sched)
  case Nil
  show ?case by simp
next
  case (Cons i sched)
  from assms have "i < length ths \<Longrightarrow>
      (\<exists>n r k. ths ! i = Waiting n r k) \<or> (\<exists>res. ths ! i = Returned res)"
    by simp
  then have "step env i \<lparr>manager = nsc, outside = w, threads = ths\<rparr> =
      \<lparr>manager = nsc, outside = w, threads = ths\<rparr>"
    by (rule step_idle)
  with Cons.IH show ?case by simp
qed

lemma deliver_waiting: "waitsOn k th \<Longrightarrow> deliver k res th = answered res th"
  by (cases th) auto

lemma answered_waiting: "waitsOn k th \<Longrightarrow> \<exists>x. answered res th = Returned x"
  by (cases th) auto

lemma answered_leading: "leads k th \<Longrightarrow> \<exists>x. answered res th = Returned x"
  by (cases th) auto

lemma map_deliver_waiting:
  "list_all (waitsOn k) ths \<Longrightarrow> map (deliver k res) ths = map (answered res) ths"
  by (induction ths) (auto simp: deliver_waiting)

lemma complete_joined:
  assumes "list_all (waitsOn k) before" and "list_all (waitsOn k) after"
    and "answered res leader = Returned (finish n res)"
  shows "complete (length before) n k res
      \<lparr>manager = nsc, outside = w, threads = before @ leader # after\<rparr> =
    \<lparr>manager = nsc, outside = w, threads = map (answered res) (before @ leader # after)\<rparr>"
proof -
  have "(map (answered res) before @ deliver k res leader # map (answered res) after)
      [length (map (answered res) before) := Returned (finish n res)] =
    map (answered res) before @ Returned (finish n res) # map (answered res) after"
    by (rule list_update_length)
  with assms show ?thesis
    by (simp add: complete_def map_deliver_waiting)
qed

lemma joined_all_returned:
  assumes "list_all (waitsOn k) before" and "list_all (waitsOn k) after" and "leads k leader"
  shows "\<forall>th \<in> set (map (answered res) (before @ leader # after)).
    (\<exists>n r k. th = Waiting n r k) \<or> (\<exists>x. th = Returned x)"
  using assms answered_waiting [of k _ res] answered_leading [of k leader res]
  by (auto simp: list_all_iff)

lemma step_waiting_thread:
  assumes "list_all (waitsOn k) before" and "list_all (waitsOn k) after"
    and "i \<noteq> length before"
  shows "step env i \<lparr>manager = nsc, outside = w, threads = before @ leader # after\<rparr> =
    \<lparr>manager = nsc, outside = w, threads = before @ leader # after\<rparr>"
proof (rule step_idle)
  assume inside: "i < length (before @ leader # after)"
  have "waitsOn k ((before @ leader # after) ! i)"
  proof (cases "i < length before")
    case True
    with assms(1) show ?thesis
      by (simp add: nth_append list_all_length)
  next
    case False
    with assms(3) have "length before < i" by simp
    then obtain m where m: "i = length before + Suc m"
      using less_iff_Suc_add by auto
    with inside have "m < length after" by simp
    with assms(2) m show ?thesis
      by (simp add: nth_append list_all_length)
  qed
  then show "(\<exists>n r k. (before @ leader # after) ! i = Waiting n r k) \<or>
      (\<exists>res. (before @ leader # after) ! i = Returned res)"
    by (cases "(before @ leader # after) ! i") auto
qed

lemma joined_run:
  assumes before: "list_all (waitsOn k) before" and after: "list_all (waitsOn k) after"
  shows "leads k leader \<Longrightarrow> remaining env leader (nsc, w) = Some (res, nsc', w') \<Longrightarrow>
    stepsLeft leader \<le> count_list sched (length before) \<Longrightarrow>
    run env sched \<lparr>manager = nsc, outside = w, threads = before @ leader # after\<rparr> =
      \<lparr>manager = nsc', outside = w',
       threads = map (answered res) (before @ leader # after)\<rparr>"
proof (induction sched arbitrary: leader nsc w)
  case Nil
  then show ?case by (cases leader) simp_all
next
  case (Cons i sched)
  let ?s = "\<lparr>manager = nsc, outside = w, threads = before @ leader # after\<rparr>"
  let ?final = "\<lparr>manager = nsc', outside = w',
      threads = map (answered res) (before @ leader # after)\<rparr>"
  have stable: "run env sched ?final = ?final"
    using joined_all_returned [OF before after Cons.prems(1)] by (rule run_idle)
  show ?case
  proof (cases "i = length before")
    case False
    with Cons.prems have "stepsLeft leader \<le> count_list sched (length before)" by simp
    from Cons.IH [OF Cons.prems(1) Cons.prems(2) this]
      step_waiting_thread [OF before after False, of env nsc w leader]
    show ?thesis by simp
  next
    case True
    from Cons.prems True have enough: "stepsLeft leader \<le> Suc (count_list sched (length before))"
      by simp
    show ?thesis
    proof (cases leader)
      case (Leading n r k')
      obtain fetched w1 where fetch: "DatastoreReadNamespace env n r w = (fetched, w1)"
        by (cases "DatastoreReadNamespace env n r w")
      show ?thesis
      proof (cases fetched)
        case (Inl err)
        with Leading fetch Cons.prems(2)
        have out: "res = Inl err" "nsc' = nsc" "w' = w1"
          by (simp_all add: loadNamespace_def)
        have "step env i ?s = complete (length before) n k' (Inl err)
            \<lparr>manager = nsc, outside = w1, threads = before @ leader # after\<rparr>"
          using True Leading fetch Inl by (simp add: step_def)
        also have "\<dots> = \<lparr>manager = nsc, outside = w1,
            threads = map (answered (Inl err)) (before @ leader # after)\<rparr>"
          using Leading Cons.prems(1) before after
            complete_joined [of k' before after "Inl err" leader n nsc w1]
          by simp
        finally show ?thesis using out stable by simp
      next
        case (Inr loaded0)
        let ?next = "Loaded n r k' (FilterUserDefinedMetadata env loaded0)"
        have moved: "step env i ?s =
            \<lparr>manager = nsc, outside = w1, threads = before @ ?next # after\<rparr>"
          using True Leading fetch Inr by (simp add: step_def)
        have rest: "remaining env ?next (nsc, w1) = Some (res, nsc', w')"
          using Leading fetch Inr Cons.prems(2) by (simp add: loadNamespace_def Let_def)
        have "leads k ?next" using Leading Cons.prems(1) by simp
        moreover have "stepsLeft ?next \<le> count_list sched (length before)"
          using enough Leading by simp
        ultimately have "run env sched
            \<lparr>manager = nsc, outside = w1, threads = before @ ?next # after\<rparr> =
          \<lparr>manager = nsc', outside = w',
           threads = map (answered res) (before @ ?next # after)\<rparr>"
          using rest by (intro Cons.IH)
        with moved Leading show ?thesis by simp
      qed
    next
      case (Loaded n r k' loaded)
      obtain derived w2 where key: "NamespaceCacheKey env n r w = (derived, w2)"
        by (cases "NamespaceCacheKey env n r w")
      show ?thesis
      proof (cases derived)
        case (Inl err)
        with Loaded key Cons.prems(2)
        have out: "res = Inl err" "nsc' = nsc" "w' = w2"
          by simp_all
        have "step env i ?s = complete (length before) n k' (Inl err)
            \<lparr>manager = nsc, outside = w2, threads = before @ leader # after\<rparr>"
          using True Loaded key Inl by (simp add: step_def)
        also have "\<dots> = \<lparr>manager = nsc, outside = w2,
            threads = map (answered (Inl err)) (before @ leader # after)\<rparr>"
          using Loaded Cons.prems(1) before after
            complete_joined [of k' before after "Inl err" leader n nsc w2]
          by simp
        finally show ?thesis using out stable by simp
      next
        case (Inr cacheKey)
        let ?next = "Keyed n r k' cacheKey loaded"
        have moved: "step env i ?s =
            \<lparr>manager = nsc, outside = w2, threads = before @ ?next # after\<rparr>"
          using True Loaded key Inr by (simp add: step_def)
        have rest: "remaining env ?next (nsc, w2) = Some (res, nsc', w')"
          using Loaded key Inr Cons.prems(2) by simp
        have "leads k ?next" using Loaded Cons.prems(1) by simp
        moreover have "stepsLeft ?next \<le> count_list sched (length before)"
          using enough Loaded by simp
        ultimately have "run env sched
            \<lparr>manager = nsc, outside = w2, threads = before @ ?next # after\<rparr> =
          \<lparr>manager = nsc', outside = w',
           threads = map (answered res) (before @ ?next # after)\<rparr>"
          using rest by (intro Cons.IH)
        with moved Loaded show ?thesis by simp
      qed
    next
      case (Keyed n r k' cacheKey loaded)
      obtain nsc1 w3 where stored:
        "Set_cache env cacheKey loaded (proto_Size env loaded) nsc w = (nsc1, w3)"
        by (cases "Set_cache env cacheKey loaded (proto_Size env loaded) nsc w")
      with Keyed Cons.prems(2)
      have out: "res = Inr loaded" "nsc' = nsc1" "w' = w3"
        by simp_all
      have "step env i ?s = complete (length before) n k' (Inr loaded)
          \<lparr>manager = nsc1, outside = w3, threads = before @ leader # after\<rparr>"
        using True Keyed stored by (simp add: step_def)
      also have "\<dots> = \<lparr>manager = nsc1, outside = w3,
          threads = map (answered (Inr loaded)) (before @ leader # after)\<rparr>"
        using Keyed Cons.prems(1) before after
          complete_joined [of k' before after "Inr loaded" leader n nsc1 w3]
        by simp
      finally show ?thesis using out stable by simp
    qed (use Cons.prems(1) in simp_all)
  qed
qed


lemma finish_ReadNamespace_miss:
  assumes "ds_NamespaceCacheKey env nsName revision (ext w) = (Inr k, x)"
    and "cache_Get k (c nsc) = None"
    and "loadNamespace env nsName revision
           (nsc, w\<lparr>ext := x,
                   calls := calls w @ [CallNamespaceCacheKey nsName revision, CallCacheGet k]\<rparr>) =
         (res, nsc', w')"
  shows "ReadNamespace env nsName revision nsc w = (finish nsName res, nsc', w')"
  using assms by (cases res) (simp_all add: ReadNamespace_miss finish_def)

text \<open>
  One thread that steps alone is ReadNamespace: its steps call the collaborators that
  ReadNamespace calls, in the same order, and it returns what ReadNamespace returns.
\<close>

lemma one_call_alone:
  "run env [0, 0, 0, 0, 0, 0]
     \<lparr>manager = nsc, outside = w, threads = [Called nsName revision]\<rparr> =
   (case ReadNamespace env nsName revision nsc w of
      (res, nsc', w') \<Rightarrow> \<lparr>manager = nsc', outside = w', threads = [Returned res]\<rparr>)"
proof -
  obtain derived x where key: "ds_NamespaceCacheKey env nsName revision (ext w) = (derived, x)"
    by (cases "ds_NamespaceCacheKey env nsName revision (ext w)")
  let ?w1 = "w\<lparr>ext := x, calls := calls w @ [CallNamespaceCacheKey nsName revision]\<rparr>"
  show ?thesis
  proof (cases derived)
    case (Inl err)
    with key have "step env 0 \<lparr>manager = nsc, outside = w, threads = [Called nsName revision]\<rparr> =
        \<lparr>manager = nsc, outside = ?w1, threads = [Returned (Inl err)]\<rparr>"
      by (simp add: step_def NamespaceCacheKey_def)
    moreover have "run env [0, 0, 0, 0, 0]
        \<lparr>manager = nsc, outside = ?w1, threads = [Returned (Inl err)]\<rparr> =
        \<lparr>manager = nsc, outside = ?w1, threads = [Returned (Inl err)]\<rparr>"
      by (rule run_idle) simp
    ultimately show ?thesis
      using key Inl by (simp add: ReadNamespace_key_error)
  next
    case (Inr k)
    let ?w2 = "w\<lparr>ext := x,
        calls := calls w @ [CallNamespaceCacheKey nsName revision, CallCacheGet k]\<rparr>"
    from key Inr have first: "step env 0
        \<lparr>manager = nsc, outside = w, threads = [Called nsName revision]\<rparr> =
        \<lparr>manager = nsc, outside = ?w1, threads = [Probing nsName revision k]\<rparr>"
      by (simp add: step_def NamespaceCacheKey_def)
    show ?thesis
    proof (cases "cache_Get k (c nsc)")
      case (Some d)
      then have "step env 0
          \<lparr>manager = nsc, outside = ?w1, threads = [Probing nsName revision k]\<rparr> =
          \<lparr>manager = nsc, outside = ?w2, threads = [Returned (Inr d)]\<rparr>"
        by (simp add: step_def Get_def)
      moreover have "run env [0, 0, 0, 0]
          \<lparr>manager = nsc, outside = ?w2, threads = [Returned (Inr d)]\<rparr> =
          \<lparr>manager = nsc, outside = ?w2, threads = [Returned (Inr d)]\<rparr>"
        by (rule run_idle) simp
      ultimately show ?thesis
        using first key Inr Some by (simp add: ReadNamespace_hit)
    next
      case None
      then have second: "step env 0
          \<lparr>manager = nsc, outside = ?w1, threads = [Probing nsName revision k]\<rparr> =
          \<lparr>manager = nsc, outside = ?w2, threads = [AtDo nsName revision k]\<rparr>"
        by (simp add: step_def Get_def)
      have third: "step env 0
          \<lparr>manager = nsc, outside = ?w2, threads = [AtDo nsName revision k]\<rparr> =
          \<lparr>manager = nsc, outside = ?w2, threads = [Leading nsName revision k]\<rparr>"
        by (simp add: step_def inFlight_def)
      obtain res nsc' w' where load:
        "loadNamespace env nsName revision (nsc, ?w2) = (res, nsc', w')"
        by (cases "loadNamespace env nsName revision (nsc, ?w2)")
      have "run env [0, 0, 0]
          \<lparr>manager = nsc, outside = ?w2, threads = [] @ Leading nsName revision k # []\<rparr> =
          \<lparr>manager = nsc', outside = w',
           threads = map (answered res) ([] @ Leading nsName revision k # [])\<rparr>"
        by (rule joined_run [where k = k]) (simp_all add: load)
      with first second third show ?thesis
        using finish_ReadNamespace_miss [OF _ None load] key Inr by simp
    qed
  qed
qed







end
